theory Spec2Isabelle
  imports Complex_Main
begin

section \<open>The CartPole dynamics engine of task3.py\<close>

text \<open>
  A shallow embedding of \<^verbatim>\<open>CartPoleEnv\<close> (its \<^verbatim>\<open>__init__\<close>, \<^verbatim>\<open>seed\<close>,
  \<^verbatim>\<open>step\<close> and \<^verbatim>\<open>reset\<close>). Python floats are modelled as type \<^typ>\<open>real\<close>: the
  embedding follows the arithmetic of the source expression by expression, but rounding,
  infinities and NaN are outside it. Python's unbounded integers are \<^typ>\<open>int\<close>.
  Rendering (\<^verbatim>\<open>render\<close>, \<^verbatim>\<open>viewer\<close>, \<^verbatim>\<open>observation_space\<close>, \<^verbatim>\<open>metadata\<close>) is
  never read by the four methods above and is left out.
\<close>

subsection \<open>Random sources\<close>

text \<open>
  A numpy generator is a deterministic state machine. Whatever its internals, all that
  the engine observes of a generator state is the value of the next unit-interval sample
  (\<^verbatim>\<open>random_sample\<close>) or of the next standard-normal sample (\<^verbatim>\<open>randn\<close>), together
  with the generator state that follows. The codatatype below is exactly this
  observable behaviour.
\<close>

codatatype rng = Rng (random_sample: "real \<times> rng") (randn: "real \<times> rng")

text \<open>
  \<^verbatim>\<open>RandomState.uniform(low, high)\<close> is \<^verbatim>\<open>low + (high - low) * random_sample()\<close>.
\<close>

definition uniform :: "real \<Rightarrow> real \<Rightarrow> rng \<Rightarrow> real \<times> rng" where
  "uniform low high g =
     (let (u, g') = random_sample g in (low + (high - low) * u, g'))"

text \<open>
  A generator that replays two given sequences: its \<open>k\<close>-th draw is \<open>us k\<close> when a unit
  sample is asked for and \<open>ns k\<close> when a normal sample is asked for. It serves to run
  the engine on concrete draws.
\<close>

primcorec replay :: "(nat \<Rightarrow> real) \<Rightarrow> (nat \<Rightarrow> real) \<Rightarrow> nat \<Rightarrow> rng" where
  "random_sample (replay us ns k) = (us k, replay us ns (Suc k))"
| "randn (replay us ns k) = (ns k, replay us ns (Suc k))"

subsection \<open>The engine's attributes\<close>

datatype error = AssertionError | TypeError

type_synonym state4 = "real \<times> real \<times> real \<times> real"

text \<open>
  One field for each attribute that \<^verbatim>\<open>__init__\<close> assigns and that \<^verbatim>\<open>seed\<close>,
  \<^verbatim>\<open>step\<close> or \<^verbatim>\<open>reset\<close> read. \<open>action_space\<close> holds the \<open>n\<close> of
  \<^verbatim>\<open>spaces.Discrete(n)\<close>; \<open>state\<close> and \<open>steps_beyond_done\<close> are \<open>None\<close> after
  construction.
\<close>

record env =
  gravity :: real
  masscart :: real
  masspole :: real
  total_mass :: real
  length_pole :: real
  polemass_length :: real
  np_random :: rng
  force_mag :: real
  tau :: real
  frictioncart :: real
  frictionpole :: real
  gravity_eps :: real
  frictioncart_eps :: real
  frictionpole_eps :: real
  theta_threshold_radians :: real
  x_threshold :: real
  action_space :: int
  state :: "state4 option"
  steps_beyond_done :: "int option"

text \<open>
  \<^verbatim>\<open>seed(seed=None)\<close> replaces the instance's generator by the one that
  \<^verbatim>\<open>seeding.np_random\<close> makes from the seed value and returns the seed used. The
  library function from seed values to generators is the parameter \<open>mk\<close>; \<open>sys\<close> is the
  seed value the library picks from system entropy when none is given.
\<close>

definition seed :: "(nat \<Rightarrow> rng) \<Rightarrow> nat \<Rightarrow> env \<Rightarrow> nat option \<Rightarrow> nat list \<times> env" where
  "seed mk sys e sd =
     (let s = (case sd of None \<Rightarrow> sys | Some v \<Rightarrow> v)
      in ([s], e\<lparr>np_random := mk s\<rparr>))"

text \<open>
  \<^verbatim>\<open>__init__(case=1)\<close>: the parameter \<open>case\<close> is only printed. The generator is set
  by \<^verbatim>\<open>self.seed()\<close>, and \<open>force_mag\<close> consumes its first draw.
\<close>

definition init :: "(nat \<Rightarrow> rng) \<Rightarrow> nat \<Rightarrow> int \<Rightarrow> env" where
  "init mk sys case_no =
     (let gravity0 = 9.8;
          masscart0 = 1.0;
          masspole0 = 0.4;
          total_mass0 = masspole0 + masscart0;
          length0 = 0.5;
          polemass_length0 = masspole0 * length0;
          g0 = mk sys;
          (r, g1) = uniform (- 0.30) 0.30 g0
      in \<lparr> gravity = gravity0,
           masscart = masscart0,
           masspole = masspole0,
           total_mass = total_mass0,
           length_pole = length0,
           polemass_length = polemass_length0,
           np_random = g1,
           force_mag = 10.0 * (1 + r),
           tau = 0.02,
           frictioncart = 5 / 10000,
           frictionpole = 2 / 1000000,
           gravity_eps = 0.99,
           frictioncart_eps = 0.99,
           frictionpole_eps = 0.99,
           theta_threshold_radians = 12 * 2 * pi / 360,
           x_threshold = 2.4,
           action_space = 2,
           state = None,
           steps_beyond_done = None \<rparr>)"

subsection \<open>step\<close>

text \<open>
  \<^verbatim>\<open>spaces.Discrete(n).contains\<close> on an integer action. (It rejects every value that
  is not an integer, so integers are the only actions that can pass the assertion.)
\<close>

definition contains :: "int \<Rightarrow> int \<Rightarrow> bool" where
  "contains n a \<longleftrightarrow> 0 \<le> a \<and> a < n"

text \<open>Lines 67 to 71: the three acceleration expressions, with the normal draws as arguments.\<close>

definition temp_of :: "env \<Rightarrow> real \<Rightarrow> real \<Rightarrow> real \<Rightarrow> real \<Rightarrow> real \<Rightarrow> real" where
  "temp_of e force x_dot theta_dot sintheta n1 =
     (force + polemass_length e * theta_dot * theta_dot * sintheta
        - frictioncart e * (4 + frictioncart_eps e * n1) * sgn x_dot) / total_mass e"

definition thetaacc_of :: "env \<Rightarrow> real \<Rightarrow> real \<Rightarrow> real \<Rightarrow> real \<Rightarrow> real \<Rightarrow> real \<Rightarrow> real" where
  "thetaacc_of e temp theta_dot sintheta costheta n2 n3 =
     (gravity e * (4 + gravity_eps e * n2) * sintheta - costheta * temp
        - frictionpole e * (4 + frictionpole_eps e * n3) * theta_dot / polemass_length e)
     / (length_pole e * (4 / 3 - masspole e * costheta * costheta / total_mass e))"

definition xacc_of :: "env \<Rightarrow> real \<Rightarrow> real \<Rightarrow> real \<Rightarrow> real" where
  "xacc_of e temp thetaacc costheta =
     temp - polemass_length e * thetaacc * costheta / total_mass e"

text \<open>Lines 79 to 83: the termination predicate on the updated \<open>x\<close> and \<open>theta\<close>.\<close>

definition is_done :: "env \<Rightarrow> real \<Rightarrow> real \<Rightarrow> bool" where
  "is_done e x theta \<longleftrightarrow>
     x < - x_threshold e \<or> x > x_threshold e
     \<or> theta < - theta_threshold_radians e \<or> theta > theta_threshold_radians e"

text \<open>
  What a call of \<^verbatim>\<open>step\<close> that returns hands back: the tuple
  \<^verbatim>\<open>(np.array(self.state), reward, done, {})\<close>, and whether the call logged the
  warning of line 93.
\<close>

record step_result =
  observation :: state4
  reward :: real
  done_flag :: bool
  info :: "(string \<times> string) list"
  warned :: bool

text \<open>
  \<^verbatim>\<open>step(action)\<close>. The call reads the process-wide generator \<^verbatim>\<open>np.random\<close> (three
  \<^verbatim>\<open>randn\<close> draws, in evaluation order: cart friction, gravity, pole friction) and the
  instance's generator \<^verbatim>\<open>self.np_random\<close> (one \<^verbatim>\<open>uniform\<close> draw). The process-wide
  generator \<open>gl\<close> is threaded through explicitly. An exception leaves the call with the
  attributes as they are at that point: the failed assertion raises
  \<^verbatim>\<open>AssertionError\<close>, unpacking \<^verbatim>\<open>None\<close> raises \<^verbatim>\<open>TypeError\<close>.
\<close>

definition step :: "env \<Rightarrow> rng \<Rightarrow> int \<Rightarrow> (error + step_result) \<times> env \<times> rng" where
  "step e gl action =
     (if \<not> contains (action_space e) action then (Inl AssertionError, e, gl)
      else case state e of
        None \<Rightarrow> (Inl TypeError, e, gl)
      | Some (x, x_dot, theta, theta_dot) \<Rightarrow>
          let force = (if action = 1 then force_mag e else - force_mag e);
              costheta = cos theta;
              sintheta = sin theta;
              (n1, gl1) = randn gl;
              temp = temp_of e force x_dot theta_dot sintheta n1;
              (n2, gl2) = randn gl1;
              (n3, gl3) = randn gl2;
              thetaacc = thetaacc_of e temp theta_dot sintheta costheta n2 n3;
              xacc = xacc_of e temp thetaacc costheta;
              (noise, g') = uniform (- 0.30) 0.30 (np_random e);
              x' = x + tau e * x_dot;
              x_dot' = x_dot + tau e * xacc;
              theta' = (theta + tau e * theta_dot) * (1 + noise);
              theta_dot' = theta_dot + tau e * thetaacc;
              e1 = e\<lparr>np_random := g', state := Some (x', x_dot', theta', theta_dot')\<rparr>;
              d = is_done e1 x' theta';
              (rew, e2, w) =
                 (if \<not> d then (1.0, e1, False)
                  else case steps_beyond_done e1 of
                    None \<Rightarrow> (1.0, e1\<lparr>steps_beyond_done := Some 0\<rparr>, False)
                  | Some n \<Rightarrow> (0.0, e1\<lparr>steps_beyond_done := Some (n + 1)\<rparr>, n = 0))
          in (Inr \<lparr> observation = (x', x_dot', theta', theta_dot'),
                    reward = rew, done_flag = d, info = [], warned = w \<rparr>,
              e2, gl3))"

subsection \<open>reset\<close>

text \<open>
  \<^verbatim>\<open>reset()\<close>: \<^verbatim>\<open>uniform(low=-0.05, high=0.05, size=(4,))\<close> fills the four
  components with four successive draws of the instance's generator.
\<close>

definition reset :: "env \<Rightarrow> state4 \<times> env" where
  "reset e =
     (let (x, g1) = uniform (- 0.05) 0.05 (np_random e);
          (x_dot, g2) = uniform (- 0.05) 0.05 g1;
          (theta, g3) = uniform (- 0.05) 0.05 g2;
          (theta_dot, g4) = uniform (- 0.05) 0.05 g3;
          s = (x, x_dot, theta, theta_dot)
      in (s, e\<lparr>np_random := g4, state := Some s, steps_beyond_done := None\<rparr>))"

subsection \<open>Sequences of calls\<close>

text \<open>
  A caller's sequence of \<^verbatim>\<open>step\<close> and \<^verbatim>\<open>reset\<close> calls on one instance. A call
  that raises leaves the instance as it is, and the caller may go on.
\<close>

datatype call = Step int | Reset

fun run :: "env \<Rightarrow> rng \<Rightarrow> call list \<Rightarrow> env \<times> rng" where
  "run e gl [] = (e, gl)"
| "run e gl (Step a # cs) = (case step e gl a of (r, e', gl') \<Rightarrow> run e' gl' cs)"
| "run e gl (Reset # cs) = run (snd (reset e)) gl cs"

subsection \<open>Trajectories\<close>

text \<open>
  The \<^verbatim>\<open>step\<close> calls of a caller that issues the actions \<open>as\<close> one after the other,
  with no \<^verbatim>\<open>reset\<close> in between: what each call returned or raised, and the instance
  after it.
\<close>

fun trajectory :: "env \<Rightarrow> rng \<Rightarrow> int list \<Rightarrow> ((error + step_result) \<times> env) list" where
  "trajectory e gl [] = []"
| "trajectory e gl (a # as) =
     (case step e gl a of (r, e', gl') \<Rightarrow> (r, e') # trajectory e' gl' as)"

text \<open>What the reward law speaks of: the done flag, the reward and the counter after the call.\<close>

definition digest :: "(error + step_result) \<times> env \<Rightarrow> (bool \<times> real \<times> int option) option" where
  "digest p =
     (case fst p of
        Inl err \<Rightarrow> None
      | Inr r \<Rightarrow> Some (done_flag r, reward r, steps_beyond_done (snd p)))"

text \<open>
  A list of such outcomes continues a count that stands at \<open>n\<close>: a done call has reward
  \<open>0\<close> and adds one to the counter, any other call has reward \<open>1\<close> and leaves it.
\<close>

fun counts_on :: "int \<Rightarrow> (bool \<times> real \<times> int option) option list \<Rightarrow> bool" where
  "counts_on n [] \<longleftrightarrow> True"
| "counts_on n (None # ds) \<longleftrightarrow> False"
| "counts_on n (Some (d, rw, c) # ds) \<longleftrightarrow>
     rw = (if d then 0 else 1) \<and> c = Some (if d then n + 1 else n)
     \<and> counts_on (if d then n + 1 else n) ds"

text \<open>
  One run of a caller on an instance: \<^verbatim>\<open>seed(s)\<close>, \<^verbatim>\<open>reset()\<close>, then the actions
  \<open>as\<close>. The run yields the observation of \<^verbatim>\<open>reset\<close> and what each \<^verbatim>\<open>step\<close>
  returned or raised. \<open>gl\<close> is the state of the process-wide generator when the run
  starts.
\<close>

definition episode ::
  "(nat \<Rightarrow> rng) \<Rightarrow> nat \<Rightarrow> env \<Rightarrow> rng \<Rightarrow> nat \<Rightarrow> int list \<Rightarrow> state4 \<times> (error + step_result) list" where
  "episode mk sys e gl s as =
     (let (sd, e1) = seed mk sys e (Some s);
          (obs, e2) = reset e1
      in (obs, map fst (trajectory e2 gl as)))"

subsection \<open>Engines as the constructor leaves them\<close>

text \<open>
  The values \<^verbatim>\<open>__init__\<close> gives to the attributes that no method assigns again.
  \<open>force_mag\<close> is drawn, so it has no fixed value.
\<close>

definition constructed :: "env \<Rightarrow> bool" where
  "constructed e \<longleftrightarrow>
     gravity e = 9.8 \<and> masscart e = 1.0 \<and> masspole e = 0.4
     \<and> total_mass e = masspole e + masscart e
     \<and> length_pole e = 0.5
     \<and> polemass_length e = masspole e * length_pole e
     \<and> tau e = 0.02
     \<and> frictioncart e = 5 / 10000 \<and> frictionpole e = 2 / 1000000
     \<and> gravity_eps e = 0.99 \<and> frictioncart_eps e = 0.99 \<and> frictionpole_eps e = 0.99
     \<and> theta_threshold_radians e = 12 * 2 * pi / 360
     \<and> x_threshold e = 2.4
     \<and> action_space e = 2"

text \<open>Two instances agree on every attribute but the generator, the state and the counter.\<close>

definition same_params :: "env \<Rightarrow> env \<Rightarrow> bool" where
  "same_params e e' \<longleftrightarrow>
     e' = e\<lparr>np_random := np_random e', state := state e',
            steps_beyond_done := steps_beyond_done e'\<rparr>"

text \<open>
  Concrete objects on which the theorems below are exercised: generators that replay
  fixed draws, the engine built on them (its \<open>force_mag\<close> is \<open>10\<close>), and engines whose
  state attribute holds a given 4-tuple.
\<close>

definition demo_rng :: rng where
  "demo_rng = replay (\<lambda>_. 1 / 2) (\<lambda>_. 0) 0"

definition demo_env :: env where
  "demo_env = init (\<lambda>_. demo_rng) 0 1"

definition over_env :: env where
  "over_env = demo_env\<lparr>state := Some (3, 0, 0, 0), steps_beyond_done := Some 0\<rparr>"

definition edge_env :: env where
  "edge_env = demo_env\<lparr>state := Some (2.4, 0, 0, 0)\<rparr>"

definition brink_env :: env where
  "brink_env = demo_env\<lparr>state := Some (0, 0, pi / 15, 0)\<rparr>"

definition back_env :: env where
  "back_env = demo_env\<lparr>state := Some (2.399, 0.1, 0, 0)\<rparr>"

definition drift_env :: env where
  "drift_env = demo_env\<lparr>state := Some (2.379, 1, 0, 0)\<rparr>"

definition skew_rng :: rng where
  "skew_rng = replay (\<lambda>_. 3 / 4) (\<lambda>k. 1 + real k) 0"

definition lean_env :: env where
  "lean_env = demo_env\<lparr>np_random := skew_rng, state := Some (1 / 2, 1 / 4, pi / 3, 1)\<rparr>"

definition seeded_rng :: "nat \<Rightarrow> rng" where
  "seeded_rng s = replay (\<lambda>k. if k = 1 then 3 / 4 else 1 / 2) (\<lambda>_. 0) 0"

definition global_rng_a :: rng where
  "global_rng_a = replay (\<lambda>_. 1 / 2) (\<lambda>_. 0) 0"

definition global_rng_b :: rng where
  "global_rng_b = replay (\<lambda>_. 1 / 2) (\<lambda>_. 1) 0"

section \<open>Basic facts\<close>

lemma constructed_init: "constructed (init mk sys c)"
  by (simp add: constructed_def init_def Let_def split: prod.splits)

lemma constructed_demo: "constructed demo_env"
  by (simp add: demo_env_def constructed_init)

lemma contains_two: "contains 2 a \<longleftrightarrow> a = 0 \<or> a = 1"
  by (auto simp: contains_def)

lemma step_invalid:
  "\<not> contains (action_space e) a \<Longrightarrow> step e gl a = (Inl AssertionError, e, gl)"
  by (simp add: step_def)

lemma step_unset:
  "contains (action_space e) a \<Longrightarrow> state e = None \<Longrightarrow> step e gl a = (Inl TypeError, e, gl)"
  by (simp add: step_def)

lemma step_same_fields:
  "step e gl a = (r, e', gl') \<Longrightarrow>
     e' = e\<lparr>np_random := np_random e', state := state e',
            steps_beyond_done := steps_beyond_done e'\<rparr>"
  by (auto simp: step_def Let_def split: if_splits option.splits prod.splits)

lemma reset_same_fields:
  "snd (reset e) = e\<lparr>np_random := np_random (snd (reset e)), state := state (snd (reset e)),
      steps_beyond_done := steps_beyond_done (snd (reset e))\<rparr>"
  by (simp add: reset_def Let_def split: prod.splits)

lemma same_params_refl: "same_params e e"
  by (simp add: same_params_def)

lemma same_params_trans: "same_params e e' \<Longrightarrow> same_params e' e'' \<Longrightarrow> same_params e e''"
  unfolding same_params_def
  by (metis (no_types, lifting) env.update_convs(7,18,19) env.surjective)

lemma run_same_params: "same_params e (fst (run e gl cs))"
proof (induction e gl cs rule: run.induct)
  case (1 e gl)
  show ?case by (simp add: same_params_refl)
next
  case (2 e gl a cs)
  obtain r e' gl' where st: "step e gl a = (r, e', gl')"
    by (cases "step e gl a") auto
  have "same_params e e'"
    using step_same_fields [OF st] by (simp add: same_params_def)
  moreover have "same_params e' (fst (run e' gl' cs))"
    using 2 st by simp
  ultimately show ?case
    using st by (simp add: same_params_trans)
next
  case (3 e gl cs)
  have "same_params e (snd (reset e))"
    using reset_same_fields [of e] by (simp add: same_params_def)
  then show ?case
    using 3 same_params_trans by fastforce
qed

lemma step_returns:
  assumes "contains (action_space e) a" and "state e = Some (x, x_dot, theta, theta_dot)"
  shows "\<exists>r e'. step e gl a = (Inr r, e', snd (randn (snd (randn (snd (randn gl))))))
           \<and> state e' = Some (observation r)
           \<and> np_random e' = snd (random_sample (np_random e))
           \<and> observation r =
               (let force = (if a = 1 then force_mag e else - force_mag e);
                    temp = temp_of e force x_dot theta_dot (sin theta) (fst (randn gl));
                    thetaacc = thetaacc_of e temp theta_dot (sin theta) (cos theta)
                                 (fst (randn (snd (randn gl))))
                                 (fst (randn (snd (randn (snd (randn gl))))));
                    xacc = xacc_of e temp thetaacc (cos theta);
                    noise = - 0.30 + (0.30 - (- 0.30)) * fst (random_sample (np_random e))
                in (x + tau e * x_dot, x_dot + tau e * xacc,
                    (theta + tau e * theta_dot) * (1 + noise), theta_dot + tau e * thetaacc))
           \<and> done_flag r = is_done e (fst (observation r)) (fst (snd (snd (observation r))))"
  using assms
  by (simp add: step_def Let_def uniform_def case_prod_beta is_done_def split: option.splits)

lemma constructed_lean: "constructed lean_env"
  using constructed_demo by (simp add: lean_env_def constructed_def)

lemma lean_fields:
  "state lean_env = Some (1 / 2, 1 / 4, pi / 3, 1)" "force_mag lean_env = 10"
  "np_random lean_env = skew_rng"
  by (simp_all add: lean_env_def demo_env_def demo_rng_def init_def uniform_def Let_def)

lemma skew_draws:
  "fst (random_sample skew_rng) = 3 / 4"
  "fst (randn skew_rng) = 1"
  "fst (randn (snd (randn skew_rng))) = 2"
  "fst (randn (snd (randn (snd (randn skew_rng))))) = 3"
  by (simp_all add: skew_rng_def)

lemma step_sbd_mono:
  "steps_beyond_done e = Some n \<Longrightarrow> step e gl a = (r, e', gl') \<Longrightarrow>
     \<exists>m. n \<le> m \<and> steps_beyond_done e' = Some m"
  by (auto simp: step_def Let_def split: if_splits option.splits prod.splits)

lemma run_steps_sbd_mono:
  "steps_beyond_done e = Some n \<Longrightarrow>
     \<exists>m. n \<le> m \<and> steps_beyond_done (fst (run e gl (map Step as))) = Some m"
proof (induction as arbitrary: e gl n)
  case Nil
  then show ?case by simp
next
  case (Cons a as)
  obtain r e' gl' where st: "step e gl a = (r, e', gl')"
    by (cases "step e gl a") auto
  from step_sbd_mono [OF Cons.prems st] obtain k where k: "n \<le> k" "steps_beyond_done e' = Some k"
    by blast
  from Cons.IH [OF k(2), of gl'] obtain m where "k \<le> m" "steps_beyond_done (fst (run e' gl' (map Step as))) = Some m"
    by blast
  with k st show ?case
    by (intro exI [of _ m]) simp
qed

lemma constructed_step:
  "constructed e \<Longrightarrow> step e gl a = (r, e', gl') \<Longrightarrow> constructed e'"
proof -
  assume c: "constructed e" and st: "step e gl a = (r, e', gl')"
  from step_same_fields [OF st] obtain g s b where
    "e' = e\<lparr>np_random := g, state := s, steps_beyond_done := b\<rparr>"
    by blast
  with c show ?thesis
    by (simp add: constructed_def)
qed

lemma step_law:
  assumes "constructed e" and "state e \<noteq> None" and "a = 0 \<or> a = 1"
  shows "\<exists>r e' gl'. step e gl a = (Inr r, e', gl') \<and> constructed e' \<and> state e' \<noteq> None
           \<and> reward r = (if done_flag r \<and> steps_beyond_done e \<noteq> None then 0 else 1)
           \<and> steps_beyond_done e' =
               (if done_flag r
                then (case steps_beyond_done e of None \<Rightarrow> Some 0 | Some n \<Rightarrow> Some (n + 1))
                else steps_beyond_done e)"
proof -
  have ct: "contains (action_space e) a"
    using assms by (auto simp: constructed_def contains_two)
  obtain x x_dot theta theta_dot where s: "state e = Some (x, x_dot, theta, theta_dot)"
    using assms(2) by (cases "state e") auto
  obtain r e' gl' where st: "step e gl a = (r, e', gl')"
    by (cases "step e gl a") auto
  have c': "constructed e'"
    using constructed_step [OF assms(1) st] .
  show ?thesis
    using st ct s c'
    by (auto simp: step_def Let_def case_prod_beta split: if_splits option.splits)
qed

lemma digest_Inr: "digest (Inr r, e) = Some (done_flag r, reward r, steps_beyond_done e)"
  by (simp add: digest_def)

lemma trajectory_Cons:
  "step e gl a = (Inr r, e', gl') \<Longrightarrow>
   map digest (trajectory e gl (a # as))
     = Some (done_flag r, reward r, steps_beyond_done e') # map digest (trajectory e' gl' as)"
  by (simp add: digest_Inr)

lemma counts_on_trajectory:
  "constructed e \<Longrightarrow> state e \<noteq> None \<Longrightarrow> steps_beyond_done e = Some n \<Longrightarrow>
   \<forall>a \<in> set as. a = 0 \<or> a = 1 \<Longrightarrow>
   counts_on n (map digest (trajectory e gl as))"
proof (induction as arbitrary: e gl n)
  case Nil
  show ?case by simp
next
  case (Cons a as)
  have a: "a = 0 \<or> a = 1"
    using Cons.prems(4) by simp
  from step_law [OF Cons.prems(1,2) a, of gl] obtain r e' gl' where
    st: "step e gl a = (Inr r, e', gl')" and c': "constructed e'" and s': "state e' \<noteq> None"
    and law: "reward r = (if done_flag r \<and> steps_beyond_done e \<noteq> None then 0 else 1)
           \<and> steps_beyond_done e' =
               (if done_flag r
                then (case steps_beyond_done e of None \<Rightarrow> Some 0 | Some n \<Rightarrow> Some (n + 1))
                else steps_beyond_done e)"
    by blast
  let ?m = "if done_flag r then n + 1 else n"
  have b': "steps_beyond_done e' = Some ?m" and rw: "reward r = (if done_flag r then 0 else 1)"
    using law Cons.prems(3) by auto
  have "counts_on ?m (map digest (trajectory e' gl' as))"
    using Cons.IH [OF c' s' b'] Cons.prems(4) by simp
  then show ?case
    unfolding trajectory_Cons [OF st] using b' rw by simp
qed

lemma counts_on_nth:
  "counts_on n ds \<Longrightarrow> j < length ds \<Longrightarrow>
   \<exists>d m. ds ! j = Some (d, if d then 0 else 1, Some (if d then m + 1 else m))
        \<and> (if j = 0 then m = n else \<exists>d' rw'. ds ! (j - 1) = Some (d', rw', Some m))"
proof (induction n ds arbitrary: j rule: counts_on.induct)
  case (1 n)
  then show ?case by simp
next
  case (2 n ds)
  then show ?case by simp
next
  case (3 n d rw c ds)
  show ?case
  proof (cases j)
    case 0
    with 3 show ?thesis by auto
  next
    case (Suc i)
    let ?n' = "if d then n + 1 else n"
    have co: "counts_on ?n' ds" and i: "i < length ds"
      using "3.prems" Suc by auto
    from "3.IH" [OF co i] obtain d2 m where
      e2: "ds ! i = Some (d2, if d2 then 0 else 1, Some (if d2 then m + 1 else m))"
      and pr: "if i = 0 then m = ?n' else \<exists>d' rw'. ds ! (i - 1) = Some (d', rw', Some m)"
      by blast
    have "\<exists>d' rw'. (Some (d, rw, c) # ds) ! (j - 1) = Some (d', rw', Some m)"
    proof (cases i)
      case 0
      with pr "3.prems" Suc show ?thesis by auto
    next
      case (Suc i')
      with pr \<open>j = Suc i\<close> show ?thesis by auto
    qed
    with e2 Suc show ?thesis
      by auto
  qed
qed

lemma first_done:
  "constructed e \<Longrightarrow> state e \<noteq> None \<Longrightarrow> steps_beyond_done e = None \<Longrightarrow>
   \<forall>a \<in> set as. a = 0 \<or> a = 1 \<Longrightarrow> k < length as \<Longrightarrow>
   \<forall>i<k. \<exists>rw c. map digest (trajectory e gl as) ! i = Some (False, rw, c) \<Longrightarrow>
   \<exists>rw c. map digest (trajectory e gl as) ! k = Some (True, rw, c) \<Longrightarrow>
   map digest (trajectory e gl as) ! k = Some (True, 1, Some 0)
   \<and> counts_on 0 (drop (Suc k) (map digest (trajectory e gl as)))"
proof (induction as arbitrary: e gl k)
  case Nil
  then show ?case by simp
next
  case (Cons a as)
  have a: "a = 0 \<or> a = 1"
    using Cons.prems(4) by simp
  from step_law [OF Cons.prems(1,2) a, of gl] obtain r e' gl' where
    st: "step e gl a = (Inr r, e', gl')" and c': "constructed e'" and s': "state e' \<noteq> None"
    and law: "reward r = (if done_flag r \<and> steps_beyond_done e \<noteq> None then 0 else 1)
           \<and> steps_beyond_done e' =
               (if done_flag r
                then (case steps_beyond_done e of None \<Rightarrow> Some 0 | Some n \<Rightarrow> Some (n + 1))
                else steps_beyond_done e)"
    by blast
  have tr: "map digest (trajectory e gl (a # as))
            = Some (done_flag r, reward r, steps_beyond_done e') # map digest (trajectory e' gl' as)"
    using st by (rule trajectory_Cons)
  show ?case
  proof (cases k)
    case 0
    have d: "done_flag r"
      using Cons.prems(7) 0 tr by simp
    with law Cons.prems(3) have "reward r = 1" "steps_beyond_done e' = Some 0"
      by auto
    moreover have "counts_on 0 (map digest (trajectory e' gl' as))"
      using counts_on_trajectory [OF c' s' \<open>steps_beyond_done e' = Some 0\<close>] Cons.prems(4) by simp
    ultimately show ?thesis
      using 0 d tr by simp
  next
    case (Suc k')
    have "\<not> done_flag r"
      using Cons.prems(6) [rule_format, of 0] Suc tr by simp
    with law Cons.prems(3) have b': "steps_beyond_done e' = None"
      by simp
    have v: "\<forall>a \<in> set as. a = 0 \<or> a = 1" and k': "k' < length as"
      using Cons.prems(4,5) Suc by auto
    have p6: "\<forall>i<k'. \<exists>rw c. map digest (trajectory e' gl' as) ! i = Some (False, rw, c)"
    proof (intro allI impI)
      fix i assume "i < k'"
      then have "Suc i < k" using Suc by simp
      from Cons.prems(6) [rule_format, OF this] show "\<exists>rw c. map digest (trajectory e' gl' as) ! i = Some (False, rw, c)"
        unfolding tr by simp
    qed
    have p7: "\<exists>rw c. map digest (trajectory e' gl' as) ! k' = Some (True, rw, c)"
      using Cons.prems(7) Suc unfolding tr by simp
    from Cons.IH [OF c' s' b' v k' p6 p7] show ?thesis
      unfolding tr using Suc by simp
  qed
qed

lemma length_trajectory: "length (trajectory e gl as) = length as"
  by (induction as arbitrary: e gl) (auto split: prod.splits)

lemma drift_digest:
  "map digest (trajectory drift_env demo_rng [0, 0, 0])
     = [Some (False, 1, None), Some (True, 1, Some 0), Some (True, 0, Some 1)]"
  using pi_ge_two
  by (simp add: drift_env_def demo_env_def demo_rng_def init_def step_def Let_def uniform_def
        contains_def is_done_def temp_of_def thetaacc_of_def xacc_of_def digest_def)

section \<open>Rejected calls\<close>

text \<open>
  C4. For every action outside \<open>{0, 1}\<close> and every engine, whatever its state,
  \<^verbatim>\<open>step(action)\<close> raises the assertion error, and the instance (episode state,
  \<open>steps_beyond_done\<close>, every parameter, the instance's generator) and the process-wide
  generator are exactly as before the call.
\<close>

theorem step_invalid_action_atomic:
  "constructed e \<Longrightarrow> a \<noteq> 0 \<Longrightarrow> a \<noteq> 1 \<Longrightarrow> step e gl a = (Inl AssertionError, e, gl)"
  by (simp add: step_invalid constructed_def contains_two)

theorem step_invalid_action_atomic_witness:
  "step demo_env demo_rng 2 = (Inl AssertionError, demo_env, demo_rng)"
  using step_invalid_action_atomic [of demo_env 2 demo_rng] constructed_demo by simp

text \<open>
  C5. The constructor leaves \<open>state\<close> at \<open>None\<close>, and \<^verbatim>\<open>seed\<close> does not touch it. On
  an engine whose \<open>state\<close> is \<open>None\<close>, \<^verbatim>\<open>step\<close> with a valid action raises (the
  \<^verbatim>\<open>TypeError\<close> of unpacking \<open>None\<close>) before any draw and before any assignment, so
  no transition is computed and the engine is unchanged.
\<close>

theorem step_before_reset_fails:
  "state (init mk sys c) = None
   \<and> state (snd (seed mk sys' e sd)) = state e
   \<and> (constructed e \<and> state e = None \<and> (a = 0 \<or> a = 1)
        \<longrightarrow> step e gl a = (Inl TypeError, e, gl))"
  by (auto simp: init_def seed_def Let_def step_unset constructed_def contains_two
           split: prod.splits)

theorem step_before_reset_fails_witness:
  "state demo_env = None \<and> step demo_env demo_rng 1 = (Inl TypeError, demo_env, demo_rng)"
proof -
  have s: "state demo_env = None"
    by (simp add: demo_env_def init_def Let_def split: prod.splits)
  show ?thesis
    using step_before_reset_fails [of "\<lambda>_. demo_rng" 0 1 0 demo_env None 1 demo_rng]
      constructed_demo s
    by simp
qed

section \<open>Invariants over sequences of calls\<close>

text \<open>
  C9. After any sequence of \<^verbatim>\<open>step\<close> and \<^verbatim>\<open>reset\<close> calls, with any actions and
  any draws, every stored parameter of the instance has the value it had before the
  sequence: the masses, the length, the derived \<open>total_mass\<close> and \<open>polemass_length\<close>,
  \<open>force_mag\<close>, \<open>gravity\<close>, the friction coefficients, the three eps values, and also
  \<open>tau\<close>, the thresholds and the action space. The jitter exists only in the values
  computed inside a call.
\<close>

theorem parameters_never_mutated:
  "(let e' = fst (run e gl cs) in
     total_mass e' = total_mass e \<and> polemass_length e' = polemass_length e
     \<and> force_mag e' = force_mag e \<and> gravity e' = gravity e
     \<and> masscart e' = masscart e \<and> masspole e' = masspole e
     \<and> length_pole e' = length_pole e
     \<and> frictioncart e' = frictioncart e \<and> frictionpole e' = frictionpole e
     \<and> gravity_eps e' = gravity_eps e \<and> frictioncart_eps e' = frictioncart_eps e
     \<and> frictionpole_eps e' = frictionpole_eps e
     \<and> tau e' = tau e \<and> theta_threshold_radians e' = theta_threshold_radians e
     \<and> x_threshold e' = x_threshold e \<and> action_space e' = action_space e)"
proof -
  have "same_params e (fst (run e gl cs))"
    by (rule run_same_params)
  then obtain g s b where
    "fst (run e gl cs) = e\<lparr>np_random := g, state := s, steps_beyond_done := b\<rparr>"
    unfolding same_params_def by blast
  then show ?thesis
    by (simp add: Let_def)
qed

text \<open>
  C10. Within a sequence of \<^verbatim>\<open>step\<close> calls (any actions, valid or not, any draws),
  once \<open>steps_beyond_done\<close> holds an integer \<open>n\<close> it holds an integer \<open>m \<ge> n\<close> after the
  sequence, hence after every prefix of it: \<^verbatim>\<open>step\<close> never clears the counter and
  never decreases it. \<^verbatim>\<open>reset\<close> sets it to \<open>None\<close>.
\<close>

theorem steps_beyond_done_monotone:
  "steps_beyond_done (snd (reset e)) = None
   \<and> (steps_beyond_done e = Some n \<longrightarrow>
        (\<exists>m. n \<le> m \<and> steps_beyond_done (fst (run e gl (map Step as))) = Some m))"
  using run_steps_sbd_mono [of e n gl as]
  by (simp add: reset_def Let_def split: prod.splits)

theorem steps_beyond_done_monotone_witness:
  "steps_beyond_done over_env = Some 0
   \<and> (\<exists>m. 0 \<le> m \<and> steps_beyond_done (fst (run over_env demo_rng (map Step [1, 1]))) = Some m)"
  using steps_beyond_done_monotone [of over_env 0 demo_rng "[1, 1]"]
  by (simp add: over_env_def)

section \<open>reset\<close>

text \<open>
  C6. \<^verbatim>\<open>reset\<close> always returns (the model has no failing branch: the constructor has
  set the generator). It takes four successive unit samples \<open>u1 .. u4\<close> of the instance's
  generator, one per component, each component being \<open>low + (high - low) * u\<close> with
  \<open>low = -0.05\<close> and \<open>high = 0.05\<close>; it stores the 4-tuple as the state, sets
  \<open>steps_beyond_done\<close> to \<open>None\<close> and returns the same 4-tuple. When the unit samples
  lie in \<open>[0, 1)\<close>, as numpy's do, every component lies in \<open>[-0.05, 0.05]\<close>. That the
  samples are uniformly distributed and independent is a property of the generator, not
  of this code, and is not expressed here.
\<close>

theorem reset_postcondition:
  "(let (u1, g1) = random_sample (np_random e); (u2, g2) = random_sample g1;
        (u3, g3) = random_sample g2; (u4, g4) = random_sample g3;
        low = - 0.05; high = 0.05;
        s = (low + (high - low) * u1, low + (high - low) * u2,
             low + (high - low) * u3, low + (high - low) * u4)
    in reset e = (s, e\<lparr>np_random := g4, state := Some s, steps_beyond_done := None\<rparr>)
       \<and> ((\<forall>u \<in> {u1, u2, u3, u4}. 0 \<le> u \<and> u < 1) \<longrightarrow>
            (case s of (x, x_dot, theta, theta_dot) \<Rightarrow>
               \<forall>c \<in> {x, x_dot, theta, theta_dot}. - 0.05 \<le> c \<and> c \<le> 0.05)))"
  by (simp add: reset_def uniform_def Let_def case_prod_beta)

theorem reset_postcondition_witness:
  "(0 \<le> (1 / 2 :: real) \<and> (1 / 2 :: real) < 1)
   \<and> fst (reset demo_env) = (0, 0, 0, 0)
   \<and> state (snd (reset demo_env)) = Some (0, 0, 0, 0)
   \<and> steps_beyond_done (snd (reset demo_env)) = None"
  using reset_postcondition [of demo_env]
  by (simp add: demo_env_def demo_rng_def init_def uniform_def Let_def)

section \<open>The transition\<close>

text \<open>
  C7. A \<^verbatim>\<open>step\<close> call with a valid action on an engine whose state is
  \<open>(x, x_dot, theta, theta_dot)\<close> returns, and the new state (also the observation) is
  \<open>x + tau * x_dot\<close> with the old \<open>x_dot\<close>, \<open>x_dot + tau * xacc\<close>,
  \<open>(theta + tau * theta_dot) * (1 + noise)\<close> and \<open>theta_dot + tau * thetaacc\<close>, with
  \<open>tau = 0.02\<close>. The noise multiplies the updated angle only. It is one
  \<^verbatim>\<open>uniform(-0.30, 0.30)\<close> draw of the instance's generator, inside \<open>[-0.30, 0.30]\<close>
  when the unit sample behind it is in \<open>[0, 1)\<close>.
\<close>

theorem euler_integration_step:
  "constructed e \<Longrightarrow> state e = Some (x, x_dot, theta, theta_dot) \<Longrightarrow> a = 0 \<or> a = 1 \<Longrightarrow>
   (let (n1, gl1) = randn gl; (n2, gl2) = randn gl1; (n3, gl3) = randn gl2;
        (u, g') = random_sample (np_random e);
        noise = - 0.30 + (0.30 - (- 0.30)) * u;
        force = (if a = 1 then force_mag e else - force_mag e);
        temp = temp_of e force x_dot theta_dot (sin theta) n1;
        thetaacc = thetaacc_of e temp theta_dot (sin theta) (cos theta) n2 n3;
        xacc = xacc_of e temp thetaacc (cos theta);
        s' = (x + 0.02 * x_dot, x_dot + 0.02 * xacc,
              (theta + 0.02 * theta_dot) * (1 + noise), theta_dot + 0.02 * thetaacc)
    in (\<exists>r e'. step e gl a = (Inr r, e', gl3) \<and> observation r = s' \<and> state e' = Some s'
                 \<and> np_random e' = g')
       \<and> (0 \<le> u \<and> u < 1 \<longrightarrow> - 0.30 \<le> noise \<and> noise \<le> 0.30))"
proof -
  assume c: "constructed e" and s: "state e = Some (x, x_dot, theta, theta_dot)" and a: "a = 0 \<or> a = 1"
  have ct: "contains (action_space e) a" and t: "tau e = 0.02"
    using c a by (auto simp: constructed_def contains_two)
  from step_returns [OF ct s, of gl] obtain r e' where
    "step e gl a = (Inr r, e', snd (randn (snd (randn (snd (randn gl))))))"
    "state e' = Some (observation r)" "np_random e' = snd (random_sample (np_random e))"
    "observation r =
               (let force = (if a = 1 then force_mag e else - force_mag e);
                    temp = temp_of e force x_dot theta_dot (sin theta) (fst (randn gl));
                    thetaacc = thetaacc_of e temp theta_dot (sin theta) (cos theta)
                                 (fst (randn (snd (randn gl))))
                                 (fst (randn (snd (randn (snd (randn gl))))));
                    xacc = xacc_of e temp thetaacc (cos theta);
                    noise = - 0.30 + (0.30 - (- 0.30)) * fst (random_sample (np_random e))
                in (x + tau e * x_dot, x_dot + tau e * xacc,
                    (theta + tau e * theta_dot) * (1 + noise), theta_dot + tau e * thetaacc))"
    by blast
  then show ?thesis
    by (simp add: Let_def case_prod_beta t)
qed

theorem euler_integration_step_witness:
  "constructed lean_env \<and> state lean_env = Some (1 / 2, 1 / 4, pi / 3, 1)
   \<and> (0 \<le> (3 / 4 :: real) \<and> (3 / 4 :: real) < 1)
   \<and> (let temp = (10 + 1 / 5 * 1 * 1 * (sqrt 3 / 2) - 5 / 10000 * (4 + 0.99 * 1) * 1) / (7 / 5);
           thetaacc = (9.8 * (4 + 0.99 * 2) * (sqrt 3 / 2) - 1 / 2 * temp
                        - 2 / 1000000 * (4 + 0.99 * 3) * 1 / (1 / 5))
                      / (1 / 2 * (4 / 3 - 2 / 5 * (1 / 2) * (1 / 2) / (7 / 5)));
           xacc = temp - 1 / 5 * thetaacc * (1 / 2) / (7 / 5);
           noise = 0.15
       in \<exists>r e' gl'. step lean_env skew_rng 1 = (Inr r, e', gl')
            \<and> observation r = (1 / 2 + 0.02 * (1 / 4), 1 / 4 + 0.02 * xacc,
                               (pi / 3 + 0.02 * 1) * (1 + noise), 1 + 0.02 * thetaacc)
            \<and> state e' = Some (observation r))"
proof -
  have "\<exists>r e' gl'. step lean_env skew_rng 1 = (Inr r, e', gl')
            \<and> observation r =
                (let temp = (10 + 1 / 5 * 1 * 1 * (sqrt 3 / 2) - 5 / 10000 * (4 + 0.99 * 1) * 1) / (7 / 5);
           thetaacc = (9.8 * (4 + 0.99 * 2) * (sqrt 3 / 2) - 1 / 2 * temp
                        - 2 / 1000000 * (4 + 0.99 * 3) * 1 / (1 / 5))
                      / (1 / 2 * (4 / 3 - 2 / 5 * (1 / 2) * (1 / 2) / (7 / 5)));
           xacc = temp - 1 / 5 * thetaacc * (1 / 2) / (7 / 5);
           noise = 0.15
       in  (1 / 2 + 0.02 * (1 / 4), 1 / 4 + 0.02 * xacc,
                               (pi / 3 + 0.02 * 1) * (1 + noise), 1 + 0.02 * thetaacc))
            \<and> state e' = Some (observation r)"
    using euler_integration_step [OF constructed_lean lean_fields(1), of 1 skew_rng]
    using constructed_lean [unfolded constructed_def]
    by (auto simp: Let_def case_prod_beta skew_draws lean_fields temp_of_def thetaacc_of_def
          xacc_of_def sin_60 cos_60)
  then show ?thesis
    using constructed_lean lean_fields(1) by (simp add: Let_def)
qed


text \<open>
  C8. In every \<^verbatim>\<open>step\<close> call that returns, the cart friction, the gravity and the
  pole friction enter the accelerations as \<open>frictioncart * (4 + frictioncart_eps * n1)\<close>,
  \<open>gravity * (4 + gravity_eps * n2)\<close> and \<open>frictionpole * (4 + frictionpole_eps * n3)\<close>,
  where \<open>n1\<close>, \<open>n2\<close>, \<open>n3\<close> are three successive \<^verbatim>\<open>randn\<close> draws (of the process-wide
  generator, which is left three draws further), and each eps is \<open>0.99\<close>.
\<close>

theorem coefficient_jitter:
  "constructed e \<Longrightarrow> state e = Some (x, x_dot, theta, theta_dot) \<Longrightarrow> a = 0 \<or> a = 1 \<Longrightarrow>
   (let (n1, gl1) = randn gl; (n2, gl2) = randn gl1; (n3, gl3) = randn gl2;
        force = (if a = 1 then force_mag e else - force_mag e);
        temp = (force + polemass_length e * theta_dot * theta_dot * sin theta
                 - frictioncart e * (4 + frictioncart_eps e * n1) * sgn x_dot) / total_mass e;
        thetaacc = (gravity e * (4 + gravity_eps e * n2) * sin theta - cos theta * temp
                     - frictionpole e * (4 + frictionpole_eps e * n3) * theta_dot
                       / polemass_length e)
                   / (length_pole e * (4 / 3 - masspole e * cos theta * cos theta / total_mass e));
        xacc = temp - polemass_length e * thetaacc * cos theta / total_mass e
    in frictioncart_eps e = 0.99 \<and> gravity_eps e = 0.99 \<and> frictionpole_eps e = 0.99
       \<and> (\<exists>r e'. step e gl a = (Inr r, e', gl3)
             \<and> fst (snd (observation r)) = x_dot + tau e * xacc
             \<and> snd (snd (snd (observation r))) = theta_dot + tau e * thetaacc))"
proof -
  assume c: "constructed e" and s: "state e = Some (x, x_dot, theta, theta_dot)" and a: "a = 0 \<or> a = 1"
  have ct: "contains (action_space e) a"
    and eps: "frictioncart_eps e = 0.99" "gravity_eps e = 0.99" "frictionpole_eps e = 0.99"
    using c a by (auto simp: constructed_def contains_two)
  from step_returns [OF ct s, of gl] obtain r e' where
    "step e gl a = (Inr r, e', snd (randn (snd (randn (snd (randn gl))))))"
    "observation r =
               (let force = (if a = 1 then force_mag e else - force_mag e);
                    temp = temp_of e force x_dot theta_dot (sin theta) (fst (randn gl));
                    thetaacc = thetaacc_of e temp theta_dot (sin theta) (cos theta)
                                 (fst (randn (snd (randn gl))))
                                 (fst (randn (snd (randn (snd (randn gl))))));
                    xacc = xacc_of e temp thetaacc (cos theta);
                    noise = - 0.30 + (0.30 - (- 0.30)) * fst (random_sample (np_random e))
                in (x + tau e * x_dot, x_dot + tau e * xacc,
                    (theta + tau e * theta_dot) * (1 + noise), theta_dot + tau e * thetaacc))"
    by blast
  then show ?thesis
    unfolding temp_of_def thetaacc_of_def xacc_of_def
    by (simp add: Let_def case_prod_beta eps)
qed

theorem coefficient_jitter_witness:
  "constructed lean_env \<and> state lean_env = Some (1 / 2, 1 / 4, pi / 3, 1)
   \<and> (let temp = (- 10 + 1 / 5 * 1 * 1 * (sqrt 3 / 2) - 5 / 10000 * (4 + 0.99 * 1) * 1) / (7 / 5);
           thetaacc = (9.8 * (4 + 0.99 * 2) * (sqrt 3 / 2) - 1 / 2 * temp
                        - 2 / 1000000 * (4 + 0.99 * 3) * 1 / (1 / 5))
                      / (1 / 2 * (4 / 3 - 2 / 5 * (1 / 2) * (1 / 2) / (7 / 5)));
           xacc = temp - 1 / 5 * thetaacc * (1 / 2) / (7 / 5)
       in \<exists>r e' gl'. step lean_env skew_rng 0 = (Inr r, e', gl')
            \<and> fst (snd (observation r)) = 1 / 4 + 0.02 * xacc
            \<and> snd (snd (snd (observation r))) = 1 + 0.02 * thetaacc)"
proof -
  have "\<exists>r e' gl'. step lean_env skew_rng 0 = (Inr r, e', gl')
            \<and> fst (snd (observation r)) =
                (let temp = (- 10 + 1 / 5 * 1 * 1 * (sqrt 3 / 2) - 5 / 10000 * (4 + 0.99 * 1) * 1) / (7 / 5);
           thetaacc = (9.8 * (4 + 0.99 * 2) * (sqrt 3 / 2) - 1 / 2 * temp
                        - 2 / 1000000 * (4 + 0.99 * 3) * 1 / (1 / 5))
                      / (1 / 2 * (4 / 3 - 2 / 5 * (1 / 2) * (1 / 2) / (7 / 5)));
           xacc = temp - 1 / 5 * thetaacc * (1 / 2) / (7 / 5)
       in 1 / 4 + 0.02 * xacc)
            \<and> snd (snd (snd (observation r))) =
                (let temp = (- 10 + 1 / 5 * 1 * 1 * (sqrt 3 / 2) - 5 / 10000 * (4 + 0.99 * 1) * 1) / (7 / 5);
           thetaacc = (9.8 * (4 + 0.99 * 2) * (sqrt 3 / 2) - 1 / 2 * temp
                        - 2 / 1000000 * (4 + 0.99 * 3) * 1 / (1 / 5))
                      / (1 / 2 * (4 / 3 - 2 / 5 * (1 / 2) * (1 / 2) / (7 / 5)));
           xacc = temp - 1 / 5 * thetaacc * (1 / 2) / (7 / 5)
       in 1 + 0.02 * thetaacc)"
    using coefficient_jitter [OF constructed_lean lean_fields(1), of 0 skew_rng]
    using constructed_lean [unfolded constructed_def]
    by (auto simp: Let_def case_prod_beta skew_draws lean_fields sin_60 cos_60)
  then show ?thesis
    using constructed_lean lean_fields(1) by (simp add: Let_def)
qed

section \<open>The termination predicate\<close>

text \<open>
  C3. The termination predicate is strict on both sides of both bounds: a \<^verbatim>\<open>step\<close>
  call that returns classifies the post-update state as done exactly when \<open>x\<close> or
  \<open>theta\<close> lies strictly beyond its bound (\<open>2.4\<close> for \<open>x\<close>, \<open>12 * 2 * pi / 360\<close> for
  \<open>theta\<close>). So a state with \<open>x\<close> exactly at \<open>2.4\<close> or \<open>-2.4\<close>, or \<open>theta\<close> exactly at
  the angle threshold or its negation, and nothing strictly beyond a bound, is classified
  not done; and a value strictly beyond either bound gives done. (Over the reals,
  "strictly beyond" stands for "one ULP past".)
\<close>

theorem boundary_strictness:
  "constructed e \<Longrightarrow> state e = Some s \<Longrightarrow> a = 0 \<or> a = 1 \<Longrightarrow>
   (\<exists>r e' gl'. step e gl a = (Inr r, e', gl') \<and>
      (let x' = fst (observation r); theta' = fst (snd (snd (observation r))) in
         (done_flag r \<longleftrightarrow>
            x' < - 2.4 \<or> 2.4 < x' \<or> theta' < - (12 * 2 * pi / 360) \<or> 12 * 2 * pi / 360 < theta')
         \<and> ((x' = 2.4 \<or> x' = - 2.4 \<or> theta' = 12 * 2 * pi / 360 \<or> theta' = - (12 * 2 * pi / 360))
            \<and> - 2.4 \<le> x' \<and> x' \<le> 2.4
            \<and> - (12 * 2 * pi / 360) \<le> theta' \<and> theta' \<le> 12 * 2 * pi / 360
          \<longrightarrow> \<not> done_flag r)
         \<and> (x' < - 2.4 \<or> 2.4 < x' \<or> theta' < - (12 * 2 * pi / 360) \<or> 12 * 2 * pi / 360 < theta'
          \<longrightarrow> done_flag r)))"
proof -
  assume c: "constructed e" and s: "state e = Some s" and a: "a = 0 \<or> a = 1"
  obtain x x_dot theta theta_dot where s4: "s = (x, x_dot, theta, theta_dot)"
    by (cases s) auto
  have ct: "contains (action_space e) a"
    and th: "x_threshold e = 2.4" "theta_threshold_radians e = 12 * 2 * pi / 360"
    using c a by (auto simp: constructed_def contains_two)
  from step_returns [OF ct s [unfolded s4], of gl] obtain r e' gl' where
    st: "step e gl a = (Inr r, e', gl')"
    and d: "done_flag r = is_done e (fst (observation r)) (fst (snd (snd (observation r))))"
    by blast
  show ?thesis
    using st d by (auto simp: is_done_def th Let_def)
qed

theorem boundary_strictness_witness:
  "constructed edge_env \<and> state edge_env = Some (2.4, 0, 0, 0)
   \<and> (\<exists>r e' gl'. step edge_env demo_rng 1 = (Inr r, e', gl')
         \<and> fst (observation r) = 2.4 \<and> fst (snd (snd (observation r))) = 0 \<and> \<not> done_flag r)
   \<and> constructed brink_env \<and> state brink_env = Some (0, 0, pi / 15, 0)
   \<and> (\<exists>r e' gl'. step brink_env demo_rng 1 = (Inr r, e', gl')
         \<and> fst (observation r) = 0 \<and> fst (snd (snd (observation r))) = 12 * 2 * pi / 360
         \<and> \<not> done_flag r)
   \<and> constructed over_env \<and> state over_env = Some (3, 0, 0, 0)
   \<and> (\<exists>r e' gl'. step over_env demo_rng 1 = (Inr r, e', gl')
         \<and> fst (observation r) = 3 \<and> done_flag r)"
proof -
  have ce: "constructed edge_env" and cb: "constructed brink_env" and co: "constructed over_env"
    using constructed_demo by (simp_all add: edge_env_def brink_env_def over_env_def constructed_def)
  have se: "state edge_env = Some (2.4, 0, 0, 0)" and sb: "state brink_env = Some (0, 0, pi / 15, 0)"
    and so: "state over_env = Some (3, 0, 0, 0)"
    by (simp_all add: edge_env_def brink_env_def over_env_def)
  have oe: "fst (observation (projr (fst (step edge_env demo_rng 1)))) = 2.4"
           "fst (snd (snd (observation (projr (fst (step edge_env demo_rng 1)))))) = 0"
    by (simp_all add: edge_env_def demo_env_def demo_rng_def init_def step_def Let_def uniform_def
        contains_def)
  have ob: "fst (observation (projr (fst (step brink_env demo_rng 1)))) = 0"
           "fst (snd (snd (observation (projr (fst (step brink_env demo_rng 1)))))) = 12 * 2 * pi / 360"
    by (simp_all add: brink_env_def demo_env_def demo_rng_def init_def step_def Let_def uniform_def
        contains_def)
  have oo: "fst (observation (projr (fst (step over_env demo_rng 1)))) = 3"
    by (simp_all add: over_env_def demo_env_def demo_rng_def init_def step_def Let_def uniform_def
        contains_def)
  have p: "0 < pi" by simp
  from boundary_strictness [OF ce se, of 1 demo_rng] obtain r e' gl' where
    st: "step edge_env demo_rng 1 = (Inr r, e', gl')"
    and law: "(let x' = fst (observation r); theta' = fst (snd (snd (observation r))) in
         (done_flag r \<longleftrightarrow>
            x' < - 2.4 \<or> 2.4 < x' \<or> theta' < - (12 * 2 * pi / 360) \<or> 12 * 2 * pi / 360 < theta')
         \<and> ((x' = 2.4 \<or> x' = - 2.4 \<or> theta' = 12 * 2 * pi / 360 \<or> theta' = - (12 * 2 * pi / 360))
            \<and> - 2.4 \<le> x' \<and> x' \<le> 2.4
            \<and> - (12 * 2 * pi / 360) \<le> theta' \<and> theta' \<le> 12 * 2 * pi / 360
          \<longrightarrow> \<not> done_flag r)
         \<and> (x' < - 2.4 \<or> 2.4 < x' \<or> theta' < - (12 * 2 * pi / 360) \<or> 12 * 2 * pi / 360 < theta'
          \<longrightarrow> done_flag r))"
    by blast
  have v: "fst (observation r) = 2.4" "fst (snd (snd (observation r))) = 0"
    using oe st by simp_all
  with law p have "\<not> done_flag r"
    by (simp add: Let_def)
  with st v
  have w1: "\<exists>r e' gl'. step edge_env demo_rng 1 = (Inr r, e', gl')
         \<and> fst (observation r) = 2.4 \<and> fst (snd (snd (observation r))) = 0 \<and> \<not> done_flag r"
    by blast
  from boundary_strictness [OF cb sb, of 1 demo_rng] obtain r1 e1 gl1 where
    st1: "step brink_env demo_rng 1 = (Inr r1, e1, gl1)"
    and law1: "(let x' = fst (observation r1); theta' = fst (snd (snd (observation r1))) in
         (done_flag r1 \<longleftrightarrow>
            x' < - 2.4 \<or> 2.4 < x' \<or> theta' < - (12 * 2 * pi / 360) \<or> 12 * 2 * pi / 360 < theta')
         \<and> ((x' = 2.4 \<or> x' = - 2.4 \<or> theta' = 12 * 2 * pi / 360 \<or> theta' = - (12 * 2 * pi / 360))
            \<and> - 2.4 \<le> x' \<and> x' \<le> 2.4
            \<and> - (12 * 2 * pi / 360) \<le> theta' \<and> theta' \<le> 12 * 2 * pi / 360
          \<longrightarrow> \<not> done_flag r1)
         \<and> (x' < - 2.4 \<or> 2.4 < x' \<or> theta' < - (12 * 2 * pi / 360) \<or> 12 * 2 * pi / 360 < theta'
          \<longrightarrow> done_flag r1))"
    by blast
  have v1: "fst (observation r1) = 0" "fst (snd (snd (observation r1))) = 12 * 2 * pi / 360"
    using ob st1 by simp_all
  with law1 p have "\<not> done_flag r1"
    by (simp add: Let_def)
  with st1 v1
  have w2: "\<exists>r e' gl'. step brink_env demo_rng 1 = (Inr r, e', gl')
         \<and> fst (observation r) = 0 \<and> fst (snd (snd (observation r))) = 12 * 2 * pi / 360
         \<and> \<not> done_flag r"
    by blast
  from boundary_strictness [OF co so, of 1 demo_rng] obtain r2 e2 gl2 where
    st2: "step over_env demo_rng 1 = (Inr r2, e2, gl2)"
    and law2: "(let x' = fst (observation r2); theta' = fst (snd (snd (observation r2))) in
         (done_flag r2 \<longleftrightarrow>
            x' < - 2.4 \<or> 2.4 < x' \<or> theta' < - (12 * 2 * pi / 360) \<or> 12 * 2 * pi / 360 < theta')
         \<and> ((x' = 2.4 \<or> x' = - 2.4 \<or> theta' = 12 * 2 * pi / 360 \<or> theta' = - (12 * 2 * pi / 360))
            \<and> - 2.4 \<le> x' \<and> x' \<le> 2.4
            \<and> - (12 * 2 * pi / 360) \<le> theta' \<and> theta' \<le> 12 * 2 * pi / 360
          \<longrightarrow> \<not> done_flag r2)
         \<and> (x' < - 2.4 \<or> 2.4 < x' \<or> theta' < - (12 * 2 * pi / 360) \<or> 12 * 2 * pi / 360 < theta'
          \<longrightarrow> done_flag r2))"
    by blast
  have "fst (observation r2) = 3"
    using oo st2 by simp
  with law2 have "done_flag r2"
    by (simp add: Let_def)
  with st2 \<open>fst (observation r2) = 3\<close>
  have w3: "\<exists>r e' gl'. step over_env demo_rng 1 = (Inr r, e', gl') \<and> fst (observation r) = 3 \<and> done_flag r"
    by blast
  show ?thesis
    using ce cb co se sb so w1 w2 w3 by blast
qed

section \<open>The reward law\<close>

text \<open>
  C2, as stated, fails: \<^verbatim>\<open>step\<close> computes done anew from each updated state, so a
  call after the first done call may find the state back inside the bounds. From the state
  \<open>(2.399, 0.1, 0, 0)\<close> with action \<open>0\<close> twice, the first call gives \<open>x = 2.401\<close>,
  done, reward \<open>1\<close>, counter \<open>0\<close>; the force has turned the velocity, so the second call
  gives \<open>x < 2.4\<close>, not done, and returns reward \<open>1\<close> with the counter still \<open>0\<close>.
\<close>

theorem reward_after_return_within_bounds:
  "steps_beyond_done back_env = None
   \<and> map digest (trajectory back_env demo_rng [0, 0])
       = [Some (True, 1, Some 0), Some (False, 1, Some 0)]"
  using pi_ge_two
  by (simp add: back_env_def demo_env_def demo_rng_def init_def step_def Let_def uniform_def
        contains_def is_done_def temp_of_def thetaacc_of_def xacc_of_def digest_def)

text \<open>
  C2, amended. Take a trajectory of \<^verbatim>\<open>step\<close> calls with valid actions, with no
  \<^verbatim>\<open>reset\<close> in between, from an engine whose state is set and whose counter is
  \<open>None\<close>, and let done first be true at call \<open>k\<close>. Then call \<open>k\<close> returns reward \<open>1\<close>
  and leaves the counter at \<open>0\<close>. Every later call \<open>j\<close> returns, and with \<open>n\<close> the counter
  before it: if its own done flag is true it returns reward \<open>0\<close> and leaves the counter
  at \<open>n + 1\<close>; if its done flag is false it returns reward \<open>1\<close> and leaves the counter
  at \<open>n\<close>.
\<close>

theorem reward_law_after_termination:
  "constructed e \<Longrightarrow> state e \<noteq> None \<Longrightarrow> steps_beyond_done e = None \<Longrightarrow>
   \<forall>a \<in> set as. a = 0 \<or> a = 1 \<Longrightarrow> k < length as \<Longrightarrow>
   \<forall>i<k. \<exists>rw c. map digest (trajectory e gl as) ! i = Some (False, rw, c) \<Longrightarrow>
   \<exists>rw c. map digest (trajectory e gl as) ! k = Some (True, rw, c) \<Longrightarrow>
   map digest (trajectory e gl as) ! k = Some (True, 1, Some 0)
   \<and> (\<forall>j. k < j \<and> j < length as \<longrightarrow>
        (\<exists>d d' rw' n.
            map digest (trajectory e gl as) ! (j - 1) = Some (d', rw', Some n)
          \<and> map digest (trajectory e gl as) ! j
              = Some (d, if d then 0 else 1, Some (if d then n + 1 else n))))"
proof -
  assume p: "constructed e" "state e \<noteq> None" "steps_beyond_done e = None"
    "\<forall>a \<in> set as. a = 0 \<or> a = 1" "k < length as"
    "\<forall>i<k. \<exists>rw c. map digest (trajectory e gl as) ! i = Some (False, rw, c)"
    "\<exists>rw c. map digest (trajectory e gl as) ! k = Some (True, rw, c)"
  let ?ds = "map digest (trajectory e gl as)"
  have len: "length ?ds = length as"
    by (simp add: length_trajectory)
  from first_done [OF p] have atk: "?ds ! k = Some (True, 1, Some 0)"
    and after: "counts_on 0 (drop (Suc k) ?ds)"
    by blast+
  have "\<exists>d d' rw' n. ?ds ! (j - 1) = Some (d', rw', Some n)
          \<and> ?ds ! j = Some (d, if d then 0 else 1, Some (if d then n + 1 else n))"
    if j: "k < j" "j < length as" for j
  proof -
    let ?i = "j - Suc k"
    have i: "?i < length (drop (Suc k) ?ds)"
      using j len by simp
    from counts_on_nth [OF after i] obtain d m where
      e1: "drop (Suc k) ?ds ! ?i = Some (d, if d then 0 else 1, Some (if d then m + 1 else m))"
      and pr: "if ?i = 0 then m = 0
               else \<exists>d' rw'. drop (Suc k) ?ds ! (?i - 1) = Some (d', rw', Some m)"
      by blast
    have nj: "drop (Suc k) ?ds ! ?i = ?ds ! j"
      using j len by simp
    have "\<exists>d' rw'. ?ds ! (j - 1) = Some (d', rw', Some m)"
    proof (cases "?i = 0")
      case True
      then have "j - 1 = k" and "m = 0" using j pr by simp_all
      with atk have "?ds ! (j - 1) = Some (True, 1, Some m)" by simp
      then show ?thesis by blast
    next
      case False
      have le: "Suc k \<le> length ?ds"
        using j len by simp
      have idx: "Suc k + (?i - 1) = j - 1"
        using j False by arith
      have "drop (Suc k) ?ds ! (?i - 1) = ?ds ! (j - 1)"
        using nth_drop [OF le, of "?i - 1"] idx by (simp only:)
      with pr False show ?thesis by metis
    qed
    with e1 nj show ?thesis
      by metis
  qed
  with atk show ?thesis
    by blast
qed

theorem reward_law_after_termination_witness:
  "constructed drift_env \<and> state drift_env \<noteq> None \<and> steps_beyond_done drift_env = None
   \<and> map digest (trajectory drift_env demo_rng [0, 0, 0]) ! 0 = Some (False, 1, None)
   \<and> map digest (trajectory drift_env demo_rng [0, 0, 0]) ! 1 = Some (True, 1, Some 0)
   \<and> (\<exists>d d' rw' n.
          map digest (trajectory drift_env demo_rng [0, 0, 0]) ! 1 = Some (d', rw', Some n)
        \<and> map digest (trajectory drift_env demo_rng [0, 0, 0]) ! 2
            = Some (d, if d then 0 else 1, Some (if d then n + 1 else n)))
   \<and> map digest (trajectory drift_env demo_rng [0, 0, 0]) ! 2 = Some (True, 0, Some 1)"
proof -
  have c: "constructed drift_env"
    using constructed_demo by (simp add: drift_env_def constructed_def)
  have s: "state drift_env \<noteq> None"
    by (simp add: drift_env_def)
  have b: "steps_beyond_done drift_env = None"
    by (simp add: drift_env_def demo_env_def init_def Let_def split: prod.splits)
  have v: "\<forall>a \<in> set [0, 0, 0 :: int]. a = 0 \<or> a = 1"
    by simp
  have k: "1 < length [0, 0, 0 :: int]"
    by simp
  have p6: "\<forall>i<1. \<exists>rw c.
              map digest (trajectory drift_env demo_rng [0, 0, 0]) ! i = Some (False, rw, c)"
    unfolding drift_digest by simp
  have p7: "\<exists>rw c. map digest (trajectory drift_env demo_rng [0, 0, 0]) ! 1 = Some (True, rw, c)"
    unfolding drift_digest by simp
  have j: "1 < (2 :: nat) \<and> 2 < length [0, 0, 0 :: int]"
    by simp
  from reward_law_after_termination [OF c s b v k p6 p7]
  have at: "map digest (trajectory drift_env demo_rng [0, 0, 0]) ! 1 = Some (True, 1, Some 0)"
    and later: "\<exists>d d' rw' n.
          map digest (trajectory drift_env demo_rng [0, 0, 0]) ! (2 - 1) = Some (d', rw', Some n)
        \<and> map digest (trajectory drift_env demo_rng [0, 0, 0]) ! 2
            = Some (d, if d then 0 else 1, Some (if d then n + 1 else n))"
    using j by blast+
  have one: "2 - 1 = (1 :: nat)"
    by simp
  have d0: "map digest (trajectory drift_env demo_rng [0, 0, 0]) ! 0 = Some (False, 1, None)"
    and d2: "map digest (trajectory drift_env demo_rng [0, 0, 0]) ! 2 = Some (True, 0, Some 1)"
    unfolding drift_digest by simp_all
  show ?thesis
    using c s b at later [unfolded one] d0 d2 by blast
qed

section \<open>Seeding\<close>

text \<open>
  Two runs on instances with the same parameters, seeded with the same value and given
  the same actions, agree on everything they return when the process-wide generator is
  in the same state at the start of both: \<^verbatim>\<open>seed\<close> and \<^verbatim>\<open>reset\<close> overwrite the
  generator, the state and the counter of the instance.
\<close>

lemma episode_same_global:
  "same_params e1 e2 \<Longrightarrow> episode mk sys1 e1 gl s as = episode mk sys2 e2 gl s as"
proof -
  assume "same_params e1 e2"
  then obtain g st b where "e2 = e1\<lparr>np_random := g, state := st, steps_beyond_done := b\<rparr>"
    unfolding same_params_def by blast
  then have "snd (reset (snd (seed mk sys2 e2 (Some s)))) = snd (reset (snd (seed mk sys1 e1 (Some s))))"
      and "fst (reset (snd (seed mk sys2 e2 (Some s)))) = fst (reset (snd (seed mk sys1 e1 (Some s))))"
    by (simp_all add: seed_def reset_def Let_def case_prod_beta)
  then show ?thesis
    by (simp add: episode_def case_prod_beta Let_def)
qed

text \<open>
  C1. The three \<^verbatim>\<open>randn\<close> draws of \<^verbatim>\<open>step\<close> come from the process-wide
  \<^verbatim>\<open>np.random\<close>, which \<^verbatim>\<open>seed\<close> does not touch, while the noise draw next to them
  and the draws of \<^verbatim>\<open>reset\<close> come from the seeded \<^verbatim>\<open>self.np_random\<close>. So two runs of
  one engine with the same seed and the same action differ as soon as the process-wide
  generator differs: after \<^verbatim>\<open>seed(0)\<close> and \<^verbatim>\<open>reset()\<close> both runs observe
  \<open>(0, 1/40, 0, 0)\<close>, and \<^verbatim>\<open>step(1)\<close> returns one cart velocity when the next normal
  draw is \<open>0\<close> and another when it is \<open>1\<close>.
\<close>

theorem seeded_runs_diverge:
  "episode seeded_rng 0 demo_env global_rng_a 0 [1]
     = ((0, 1 / 40, 0, 0),
        [Inr \<lparr>observation = (1 / 2000, 11373 / 55000, 0, - (14997 / 55000)),
               reward = 1, done_flag = False, info = [], warned = False\<rparr>])
   \<and> episode seeded_rng 0 demo_env global_rng_b 0 [1]
     = ((0, 1 / 40, 0, 0),
        [Inr \<lparr>observation = (1 / 2000, 2274501 / 11000000, 0, - (5998503 / 22000000)),
               reward = 1, done_flag = False, info = [], warned = False\<rparr>])
   \<and> episode seeded_rng 0 demo_env global_rng_a 0 [1]
       \<noteq> episode seeded_rng 0 demo_env global_rng_b 0 [1]"
proof -
  have a: "episode seeded_rng 0 demo_env global_rng_a 0 [1]
     = ((0, 1 / 40, 0, 0),
        [Inr \<lparr>observation = (1 / 2000, 11373 / 55000, 0, - (14997 / 55000)),
               reward = 1, done_flag = False, info = [], warned = False\<rparr>])"
    by (simp add: episode_def seed_def reset_def seeded_rng_def global_rng_a_def
        demo_env_def demo_rng_def init_def step_def Let_def uniform_def
        contains_def is_done_def temp_of_def thetaacc_of_def xacc_of_def)
  have b: "episode seeded_rng 0 demo_env global_rng_b 0 [1]
     = ((0, 1 / 40, 0, 0),
        [Inr \<lparr>observation = (1 / 2000, 2274501 / 11000000, 0, - (5998503 / 22000000)),
               reward = 1, done_flag = False, info = [], warned = False\<rparr>])"
    by (simp add: episode_def seed_def reset_def seeded_rng_def global_rng_b_def
        demo_env_def demo_rng_def init_def step_def Let_def uniform_def
        contains_def is_done_def temp_of_def thetaacc_of_def xacc_of_def)
  show ?thesis
    unfolding a b by simp
qed

end
